theory Spec2Isabelle
  imports Complex_Main
begin

text \<open>
  A shallow embedding of the parsing core of the hydration bot
  (\<^verbatim>\<open>src/lib/parser.ts\<close>, \<^verbatim>\<open>src/lib/time.ts\<close>, \<^verbatim>\<open>src/lib/llm.ts\<close>, \<^verbatim>\<open>src/types.ts\<close>).

  Conventions of the model.
  \<^item> A JavaScript string is a \<^typ>\<open>string\<close>; a \<^typ>\<open>char\<close> stands for a UTF-16 code unit
    below 256 (the Latin-1 range). Texts with code units above 255 are outside the model.
  \<^item> A JavaScript number is \<open>NaN\<close> or an exact rational (\<open>Num q\<close>); the rounding of IEEE
    doubles and the infinities are not modelled.
  \<^item> \<open>undefined\<close> and \<open>null\<close> of an optional field are \<open>None\<close>.
  \<^item> The clock, the network, \<^verbatim>\<open>JSON.parse\<close> and the \<^verbatim>\<open>ToString\<close> coercion are supplied by a
    \<open>Runtime\<close> record; one run of a handler sees one instant \<open>now_ms\<close>.
  \<^item> A thrown exception is the \<open>Inl\<close> of a sum; every \<^verbatim>\<open>try/catch\<close> of the source is a
    \<open>try_catch\<close> of the model.
\<close>

section \<open>Characters and strings\<close>

definition is_digit :: "char \<Rightarrow> bool" where
  "is_digit c = (48 \<le> (of_char c :: nat) \<and> (of_char c :: nat) \<le> 57)"

definition is_space :: "char \<Rightarrow> bool" where
  "is_space c = ((of_char c :: nat) \<in> {9, 10, 11, 12, 13, 32, 160})"

definition is_word_char :: "char \<Rightarrow> bool" where
  "is_word_char c = (let n = (of_char c :: nat) in
     (48 \<le> n \<and> n \<le> 57) \<or> (65 \<le> n \<and> n \<le> 90) \<or> (97 \<le> n \<and> n \<le> 122) \<or> n = 95)"

definition lower_char :: "char \<Rightarrow> char" where
  "lower_char c = (let n = (of_char c :: nat) in
     if (65 \<le> n \<and> n \<le> 90) \<or> (192 \<le> n \<and> n \<le> 222 \<and> n \<noteq> 215)
     then char_of (n + 32) else c)"

definition canonicalize :: "char \<Rightarrow> char" where
  "canonicalize c = (let n = (of_char c :: nat) in
     if (97 \<le> n \<and> n \<le> 122) \<or> (224 \<le> n \<and> n \<le> 254 \<and> n \<noteq> 247)
     then char_of (n - 32) else c)"

definition toLowerCase :: "string \<Rightarrow> string" where
  "toLowerCase s = map lower_char s"

definition trim :: "string \<Rightarrow> string" where
  "trim s = rev (dropWhile is_space (rev (dropWhile is_space s)))"

section \<open>Regular expressions\<close>

datatype cclass = Digit | Space | AnyChar

datatype rx =
    Lit char
  | Cls cclass
  | Seq rx rx
  | Alt rx rx
  | Star rx
  | LazyStar rx
  | Opt rx
  | Cap rx
  | WordB
  | Bol
  | Eol
  | Eps

type_synonym mstate = "char option \<times> string \<times> string option"

fun in_class :: "cclass \<Rightarrow> char \<Rightarrow> bool" where
  "in_class Digit c = is_digit c"
| "in_class Space c = is_space c"
| "in_class AnyChar c = True"

definition chr_eq :: "bool \<Rightarrow> char \<Rightarrow> char \<Rightarrow> bool" where
  "chr_eq ic c x = (if ic then canonicalize c = canonicalize x else c = x)"

fun is_word_opt :: "char option \<Rightarrow> bool" where
  "is_word_opt None = False"
| "is_word_opt (Some c) = is_word_char c"

fun next_char :: "string \<Rightarrow> char option" where
  "next_char [] = None"
| "next_char (x # xs) = Some x"

definition progress :: "mstate \<Rightarrow> mstate \<Rightarrow> bool" where
  "progress st st' = (length (fst (snd st')) < length (fst (snd st)))"

definition set_cap :: "string \<Rightarrow> mstate \<Rightarrow> mstate" where
  "set_cap s st' = (fst st', fst (snd st'),
     Some (take (length s - length (fst (snd st'))) s))"

function rmatch :: "bool \<Rightarrow> rx \<Rightarrow> mstate \<Rightarrow> mstate list" where
  "rmatch ic (Lit c) (p, [], g) = []"
| "rmatch ic (Lit c) (p, x # xs, g) = (if chr_eq ic c x then [(Some x, xs, g)] else [])"
| "rmatch ic (Cls k) (p, [], g) = []"
| "rmatch ic (Cls k) (p, x # xs, g) = (if in_class k x then [(Some x, xs, g)] else [])"
| "rmatch ic (Seq r1 r2) st = concat (map (rmatch ic r2) (rmatch ic r1 st))"
| "rmatch ic (Alt r1 r2) st = rmatch ic r1 st @ rmatch ic r2 st"
| "rmatch ic (Star r) st =
     concat (map (rmatch ic (Star r)) (filter (progress st) (rmatch ic r st))) @ [st]"
| "rmatch ic (LazyStar r) st =
     st # concat (map (rmatch ic (LazyStar r)) (filter (progress st) (rmatch ic r st)))"
| "rmatch ic (Opt r) st = filter (progress st) (rmatch ic r st) @ [st]"
| "rmatch ic (Cap r) (p, s, g) = map (set_cap s) (rmatch ic r (p, s, g))"
| "rmatch ic WordB (p, s, g) =
     (if is_word_opt p \<noteq> is_word_opt (next_char s) then [(p, s, g)] else [])"
| "rmatch ic Bol (p, s, g) = (if p = None then [(p, s, g)] else [])"
| "rmatch ic Eol (p, s, g) = (if s = [] then [(p, s, g)] else [])"
| "rmatch ic Eps st = [st]"
  by pat_completeness auto
termination
  by (relation "inv_image (less_than <*lex*> less_than)
        (\<lambda>(ic, r, st). (size r, length (fst (snd st))))")
     (auto simp: progress_def)

record rx_result =
  whole :: string
  group1 :: "string option"

declare rmatch.simps(7,8) [simp del]

fun search_from :: "bool \<Rightarrow> rx \<Rightarrow> char option \<Rightarrow> string \<Rightarrow> rx_result option" where
  "search_from ic r p [] =
     (case rmatch ic r (p, [], None) of
        [] \<Rightarrow> None
      | st # _ \<Rightarrow> Some \<lparr>whole = [], group1 = snd (snd st)\<rparr>)"
| "search_from ic r p (x # xs) =
     (case rmatch ic r (p, x # xs, None) of
        [] \<Rightarrow> search_from ic r (Some x) xs
      | st # _ \<Rightarrow> Some \<lparr>whole = take (length (x # xs) - length (fst (snd st))) (x # xs),
                          group1 = snd (snd st)\<rparr>)"

text \<open>\<^verbatim>\<open>str.match(re)\<close> for a regular expression without the \<^verbatim>\<open>g\<close> flag: the leftmost
  match, the first one in backtracking order. The flag \<open>ic\<close> is the \<^verbatim>\<open>i\<close> flag.\<close>

definition rx_match :: "bool \<Rightarrow> rx \<Rightarrow> string \<Rightarrow> rx_result option" where
  "rx_match ic r s = search_from ic r None s"

definition rx_test :: "bool \<Rightarrow> rx \<Rightarrow> string \<Rightarrow> bool" where
  "rx_test ic r s = (rx_match ic r s \<noteq> None)"

text \<open>The character before the position reached after reading \<open>s\<close>.\<close>

definition prev_after :: "char option \<Rightarrow> string \<Rightarrow> char option" where
  "prev_after p s = (if s = [] then p else Some (last s))"

fun lits :: "string \<Rightarrow> rx" where
  "lits [] = Eps"
| "lits [c] = Lit c"
| "lits (c # cs) = Seq (Lit c) (lits cs)"

fun seqs :: "rx list \<Rightarrow> rx" where
  "seqs [] = Eps"
| "seqs [r] = r"
| "seqs (r # rs) = Seq r (seqs rs)"

fun alts :: "rx \<Rightarrow> rx list \<Rightarrow> rx" where
  "alts r [] = r"
| "alts r (r' # rs) = Alt r (alts r' rs)"

definition Many1 :: "rx \<Rightarrow> rx" where
  "Many1 r = Seq r (Star r)"

definition digits1 :: rx where
  "digits1 = Many1 (Cls Digit)"

definition spaces0 :: rx where
  "spaces0 = Star (Cls Space)"

fun str_includes :: "string \<Rightarrow> string \<Rightarrow> bool" where
  "str_includes [] sub = (sub = [])"
| "str_includes (x # xs) sub = (take (length sub) (x # xs) = sub \<or> str_includes xs sub)"

section \<open>Numbers\<close>

datatype number = NaN | Num rat

fun num_lt :: "number \<Rightarrow> number \<Rightarrow> bool" where
  "num_lt (Num a) (Num b) = (a < b)"
| "num_lt _ _ = False"

fun num_le :: "number \<Rightarrow> number \<Rightarrow> bool" where
  "num_le (Num a) (Num b) = (a \<le> b)"
| "num_le _ _ = False"

fun num_mul :: "number \<Rightarrow> number \<Rightarrow> number" where
  "num_mul (Num a) (Num b) = Num (a * b)"
| "num_mul _ _ = NaN"

fun num_div :: "number \<Rightarrow> number \<Rightarrow> number" where
  "num_div (Num a) (Num b) = (if b = 0 then NaN else Num (a / b))"
| "num_div _ _ = NaN"

fun Math_round :: "number \<Rightarrow> number" where
  "Math_round (Num a) = Num (of_int \<lfloor>a + 1 / 2\<rfloor>)"
| "Math_round NaN = NaN"

fun Math_min :: "number \<Rightarrow> number \<Rightarrow> number" where
  "Math_min (Num a) (Num b) = Num (min a b)"
| "Math_min _ _ = NaN"

definition digit_val :: "char \<Rightarrow> nat" where
  "digit_val c = of_char c - 48"

definition digits_val :: "string \<Rightarrow> nat" where
  "digits_val ds = foldl (\<lambda>a c. 10 * a + digit_val c) 0 ds"

text \<open>\<^verbatim>\<open>parseInt(s, 10)\<close>: leading white space, an optional sign, the longest run of
  digits; \<open>NaN\<close> when there is no digit.\<close>

definition parseInt :: "string \<Rightarrow> number" where
  "parseInt s =
     (let t = dropWhile is_space s;
          neg = (case t of [] \<Rightarrow> False | c # _ \<Rightarrow> c = CHR ''-'');
          u = (case t of [] \<Rightarrow> [] | c # cs \<Rightarrow> if c = CHR ''-'' \<or> c = CHR ''+'' then cs else t);
          ds = takeWhile is_digit u
      in if ds = [] then NaN
         else Num (if neg then - of_nat (digits_val ds) else of_nat (digits_val ds)))"

text \<open>\<^verbatim>\<open>parseFloat(s)\<close> on decimal literals without sign and exponent, the only ones the
  capture groups of this program admit: digits, then optionally a dot and digits.\<close>

definition parseFloat :: "string \<Rightarrow> number" where
  "parseFloat s =
     (let t = dropWhile is_space s;
          ip = takeWhile is_digit t;
          r = dropWhile is_digit t;
          fp = (case r of [] \<Rightarrow> [] | c # cs \<Rightarrow> if c = CHR ''.'' then takeWhile is_digit cs else [])
      in if ip = [] \<and> fp = [] then NaN
         else Num (of_nat (digits_val ip) + of_nat (digits_val fp) / 10 ^ length fp))"

text \<open>The string a capture group is read as: \<^verbatim>\<open>undefined\<close> converts to the word.\<close>

fun cap_string :: "string option \<Rightarrow> string" where
  "cap_string None = ''undefined''"
| "cap_string (Some s) = s"

definition digit_char :: "nat \<Rightarrow> char" where
  "digit_char n = char_of (48 + n)"

function show_nat :: "nat \<Rightarrow> string" where
  "show_nat n = (if n < 10 then [digit_char n] else show_nat (n div 10) @ [digit_char (n mod 10)])"
  by pat_completeness auto
termination
  by (relation "measure id") auto

declare show_nat.simps [simp del]

definition show_int :: "int \<Rightarrow> string" where
  "show_int i = (if i < 0 then CHR ''-'' # show_nat (nat (- i)) else show_nat (nat i))"

definition padStart2 :: "string \<Rightarrow> string" where
  "padStart2 s = replicate (2 - length s) CHR ''0'' @ s"

section \<open>src/lib/time.ts\<close>

definition IST_OFFSET_MS :: int where
  "IST_OFFSET_MS = 19800000"

definition msPerDay :: int where
  "msPerDay = 86400000"

text \<open>The fields of a \<^verbatim>\<open>Date\<close> (a time value in milliseconds since the epoch), as
  ECMAScript defines them: the day number is \<open>t div msPerDay\<close> and the calendar date is that
  of the proleptic Gregorian calendar.\<close>

definition civil_from_days :: "int \<Rightarrow> int \<times> int \<times> int" where
  "civil_from_days z0 =
     (let z = z0 + 719468;
          era = z div 146097;
          doe = z mod 146097;
          yoe = (doe - doe div 1460 + doe div 36524 - doe div 146096) div 365;
          doy = doe - (365 * yoe + yoe div 4 - yoe div 100);
          mp = (5 * doy + 2) div 153;
          d = doy - (153 * mp + 2) div 5 + 1;
          m = (if mp < 10 then mp + 3 else mp - 9);
          y = yoe + era * 400 + (if m \<le> 2 then 1 else 0)
      in (y, m, d))"

definition getUTCFullYear :: "int \<Rightarrow> int" where
  "getUTCFullYear t = fst (civil_from_days (t div msPerDay))"

definition getUTCMonth :: "int \<Rightarrow> int" where
  "getUTCMonth t = fst (snd (civil_from_days (t div msPerDay))) - 1"

definition getUTCDate :: "int \<Rightarrow> int" where
  "getUTCDate t = snd (snd (civil_from_days (t div msPerDay)))"

definition getUTCHours :: "int \<Rightarrow> int" where
  "getUTCHours t = (t mod msPerDay) div 3600000"

definition getUTCMinutes :: "int \<Rightarrow> int" where
  "getUTCMinutes t = (t mod 3600000) div 60000"

definition getUTCSeconds :: "int \<Rightarrow> int" where
  "getUTCSeconds t = (t mod 60000) div 1000"

text \<open>\<^verbatim>\<open>new Date(Date.UTC(d.getUTCFullYear(), d.getUTCMonth(), d.getUTCDate()))\<close>: the calendar
  fields of \<open>d\<close> put together again at 00:00:00.000, which is the start of the day of \<open>d\<close>
  (for years from 100 on; \<^verbatim>\<open>Date.UTC\<close> reads a year below 100 as 19xx).\<close>

definition utc_day_start :: "int \<Rightarrow> int" where
  "utc_day_start t = (t div msPerDay) * msPerDay"

definition nowIST :: "int \<Rightarrow> int" where
  "nowIST now = now + IST_OFFSET_MS"

definition todayMidnightIST :: "int \<Rightarrow> int" where
  "todayMidnightIST now = utc_day_start (nowIST now)"

definition yesterdayMidnightIST :: "int \<Rightarrow> int" where
  "yesterdayMidnightIST now = todayMidnightIST now - 24 * 60 * 60 * 1000"

definition toISTString :: "int \<Rightarrow> string" where
  "toISTString date =
     (let istDate = date + IST_OFFSET_MS;
          year = getUTCFullYear istDate;
          month = padStart2 (show_int (getUTCMonth istDate + 1));
          day = padStart2 (show_int (getUTCDate istDate));
          hours = padStart2 (show_int (getUTCHours istDate));
          minutes = padStart2 (show_int (getUTCMinutes istDate));
          seconds = padStart2 (show_int (getUTCSeconds istDate))
      in show_int year @ ''-'' @ month @ ''-'' @ day @ ''T'' @ hours @ '':'' @ minutes
           @ '':'' @ seconds @ ''+05:30'')"

definition nowISTString :: "int \<Rightarrow> string" where
  "nowISTString now = toISTString now"

text \<open>\<^verbatim>\<open>new Date(x)\<close> keeps the integral part of a finite \<open>x\<close> (truncation towards zero).\<close>

definition trunc :: "rat \<Rightarrow> int" where
  "trunc x = (if 0 \<le> x then \<lfloor>x\<rfloor> else \<lceil>x\<rceil>)"

text \<open>With \<open>NaN\<close> both guards are false, the target is an invalid \<^verbatim>\<open>Date\<close>, the comparison
  with it is false again, and every field of the invalid date prints as \<^verbatim>\<open>NaN\<close>.\<close>

definition validateRetroactiveTime :: "int \<Rightarrow> number \<Rightarrow> string option" where
  "validateRetroactiveTime now offsetHours =
     (if num_lt (Num 12) offsetHours \<or> num_lt offsetHours (Num 0) then None
      else case offsetHours of
        NaN \<Rightarrow> Some ''NaN-NaN-NaNTNaN:NaN:NaN+05:30''
      | Num h \<Rightarrow>
          (let targetTime = trunc (of_int now - h * 60 * 60 * 1000);
               todayMidnight = todayMidnightIST now;
               todayMidnightUTC = todayMidnight - IST_OFFSET_MS
           in if targetTime < todayMidnightUTC then None
              else Some (toISTString targetTime)))"

definition hoursRe :: rx where
  "hoursRe = seqs [Cap digits1, spaces0, lits ''hour'', Opt (Lit CHR ''s''), spaces0, lits ''ago'']"

definition minutesRe :: rx where
  "minutesRe = seqs [Cap digits1, spaces0,
     Alt (Seq (lits ''minute'') (Opt (Lit CHR ''s''))) (Seq (lits ''min'') (Opt (Lit CHR ''s''))),
     spaces0, lits ''ago'']"

definition parseRelativeOffset :: "string option \<Rightarrow> number option" where
  "parseRelativeOffset relativeTime =
     (case relativeTime of
        None \<Rightarrow> None
      | Some rt \<Rightarrow>
          if rt = [] then None
          else let lower = trim (toLowerCase rt) in
            case rx_match False hoursRe lower of
              Some hoursMatch \<Rightarrow> Some (parseInt (cap_string (group1 hoursMatch)))
            | None \<Rightarrow>
               (case rx_match False minutesRe lower of
                  Some minutesMatch \<Rightarrow>
                    Some (num_div (parseInt (cap_string (group1 minutesMatch))) (Num 60))
                | None \<Rightarrow>
                    if lower = ''earlier'' \<or> lower = ''before'' \<or> lower = ''some time ago''
                    then None else None))"

section \<open>src/types.ts\<close>

record Env =
  OPENAI_API_KEY :: "string option"
  OPENAI_BASE_URL :: "string option"
  OPENAI_MODEL :: "string option"

record UserPreferences =
  chat_id :: string
  target_ml :: int
  bottle_size_ml :: int

datatype WaterIntent = Log | Clarify | NoAction | Edit | Query | Undo | Chitchat

record ParseResult =
  success :: bool
  intent :: "WaterIntent option"
  amount_ml :: "number option"
  log_time :: "string option"
  needs_clarification :: "bool option"
  clarification_prompt :: "string option"
  adjust_by_ml :: "number option"
  undo_count :: "number option"
  chitchat_reply :: "string option"

text \<open>The fields of \<^verbatim>\<open>LLMExtractionResult\<close> carry the suffix \<open>_x\<close> where \<^verbatim>\<open>ParseResult\<close>
  has a field of the same name.\<close>

record LLMExtractionResult =
  intent_x :: WaterIntent
  amount_ml_x :: "number option"
  relative_time :: "string option"
  ambiguous :: bool
  clarification_needed :: "string option"
  adjust_by_ml_x :: "number option"
  undo_count_x :: "number option"

definition no_result :: ParseResult where
  "no_result = \<lparr>success = False, intent = None, amount_ml = None, log_time = None,
     needs_clarification = None, clarification_prompt = None, adjust_by_ml = None,
     undo_count = None, chitchat_reply = None\<rparr>"

section \<open>The runtime: clock, network, JSON\<close>

datatype json =
    JNull
  | JBool bool
  | JNum rat
  | JStr string
  | JArr "json list"
  | JObj "(string \<times> json) list"

datatype exn = TypeError | SyntaxError | NetworkError | TimeoutError

record Request =
  url :: string
  authorization :: string
  model :: string
  user_content :: string

text \<open>What \<^verbatim>\<open>await fetch(...)\<close> does: it rejects (a transport error, or the abort of
  \<^verbatim>\<open>AbortSignal.timeout\<close>), or it gives a response with its \<^verbatim>\<open>ok\<close> flag and what
  \<^verbatim>\<open>response.json()\<close> yields (\<open>None\<close>: the body is not JSON and the call rejects).\<close>

datatype FetchOutcome = Rejects exn | Response bool "json option"

record Runtime =
  now_ms :: int
  fetch :: "Request \<Rightarrow> FetchOutcome"
  JSON_parse :: "string \<Rightarrow> json option"
  ToString :: "json \<Rightarrow> string"

definition try_catch :: "exn + 'a \<Rightarrow> (exn \<Rightarrow> exn + 'a) \<Rightarrow> exn + 'a" where
  "try_catch body handler = (case body of Inl e \<Rightarrow> handler e | Inr v \<Rightarrow> Inr v)"

text \<open>A JavaScript value read from JSON; \<open>None\<close> is \<^verbatim>\<open>undefined\<close>.\<close>

fun truthy :: "json option \<Rightarrow> bool" where
  "truthy None = False"
| "truthy (Some JNull) = False"
| "truthy (Some (JBool b)) = b"
| "truthy (Some (JNum n)) = (n \<noteq> 0)"
| "truthy (Some (JStr s)) = (s \<noteq> [])"
| "truthy (Some (JArr xs)) = True"
| "truthy (Some (JObj kvs)) = True"

text \<open>\<^verbatim>\<open>v.name\<close> for a value other than \<^verbatim>\<open>null\<close> and a name that is neither an index nor
  \<^verbatim>\<open>length\<close>: only an object has it.\<close>

fun get_prop :: "json \<Rightarrow> string \<Rightarrow> json option" where
  "get_prop (JObj kvs) k = map_of kvs k"
| "get_prop _ k = None"

text \<open>\<^verbatim>\<open>v[0]\<close> for a value other than \<^verbatim>\<open>null\<close>.\<close>

fun get_index0 :: "json \<Rightarrow> json option" where
  "get_index0 (JArr []) = None"
| "get_index0 (JArr (x # xs)) = Some x"
| "get_index0 (JStr []) = None"
| "get_index0 (JStr (c # cs)) = Some (JStr [c])"
| "get_index0 (JObj kvs) = map_of kvs ''0''"
| "get_index0 _ = None"

text \<open>\<^verbatim>\<open>v?.name\<close>: \<^verbatim>\<open>undefined\<close> when \<open>v\<close> is \<^verbatim>\<open>undefined\<close> or \<^verbatim>\<open>null\<close>.\<close>

fun opt_chain :: "json option \<Rightarrow> (json \<Rightarrow> json option) \<Rightarrow> json option" where
  "opt_chain None f = None"
| "opt_chain (Some JNull) f = None"
| "opt_chain (Some v) f = f v"

section \<open>src/lib/llm.ts\<close>

definition DEFAULT_OPENAI_URL :: string where
  "DEFAULT_OPENAI_URL = ''https://api.openai.com/v1/chat/completions''"

definition DEFAULT_MODEL :: string where
  "DEFAULT_MODEL = ''gpt-4o-mini''"

definition MAX_USER_MESSAGE_LENGTH :: nat where
  "MAX_USER_MESSAGE_LENGTH = 500"

text \<open>The prompts of the source end in an emoji, which is left out here.\<close>

definition createFallbackResult :: LLMExtractionResult where
  "createFallbackResult = \<lparr>intent_x = Clarify, amount_ml_x = None, relative_time = None,
     ambiguous = True,
     clarification_needed = Some ''I didn't quite catch that - how much water was it?'',
     adjust_by_ml_x = None, undo_count_x = None\<rparr>"

definition fenceRe :: rx where
  "fenceRe = seqs [lits ''```'', Opt (lits ''json''), spaces0, Cap (LazyStar (Cls AnyChar)),
     lits ''```'']"

definition objectRe :: rx where
  "objectRe = seqs [Lit CHR ''{'', Star (Cls AnyChar), Lit CHR ''}'']"

text \<open>\<^verbatim>\<open>JSON.parse(content)\<close> converts its argument to a string first. In the handler of the
  first \<^verbatim>\<open>catch\<close>, \<^verbatim>\<open>content.match\<close> exists only on a string: on any other value the call
  throws a \<^verbatim>\<open>TypeError\<close>, which leaves the function. \<open>Inr None\<close> is the result \<^verbatim>\<open>null\<close>.\<close>

definition parseJSONSafely :: "Runtime \<Rightarrow> json \<Rightarrow> exn + json option" where
  "parseJSONSafely rt content =
     (case JSON_parse rt (case content of JStr s \<Rightarrow> s | _ \<Rightarrow> ToString rt content) of
        Some v \<Rightarrow> Inr (Some v)
      | None \<Rightarrow>
         (case content of
            JStr s \<Rightarrow>
              (case rx_match False fenceRe s of
                 Some jsonMatch \<Rightarrow>
                   (case JSON_parse rt (trim (cap_string (group1 jsonMatch))) of
                      Some v \<Rightarrow> Inr (Some v)
                    | None \<Rightarrow> Inr None)
               | None \<Rightarrow>
                   (case rx_match False objectRe s of
                      Some objectMatch \<Rightarrow>
                        (case JSON_parse rt (whole objectMatch) of
                           Some v \<Rightarrow> Inr (Some v)
                         | None \<Rightarrow> Inr None)
                    | None \<Rightarrow> Inr None))
          | _ \<Rightarrow> Inl TypeError))"

fun intent_of_string :: "string \<Rightarrow> WaterIntent option" where
  "intent_of_string s =
     (if s = ''log'' then Some Log
      else if s = ''clarify'' then Some Clarify
      else if s = ''no_action'' then Some NoAction
      else if s = ''edit'' then Some Edit
      else if s = ''query'' then Some Query
      else if s = ''undo'' then Some Undo
      else if s = ''chitchat'' then Some Chitchat
      else None)"

fun as_number :: "json option \<Rightarrow> number option" where
  "as_number (Some (JNum q)) = Some (Num q)"
| "as_number _ = None"

fun as_string :: "json option \<Rightarrow> string option" where
  "as_string (Some (JStr s)) = Some s"
| "as_string _ = None"

text \<open>The record built from the parsed object (the last statement of the \<^verbatim>\<open>try\<close> block).\<close>

definition normalise :: "json \<Rightarrow> LLMExtractionResult" where
  "normalise parsed =
     \<lparr>intent_x =
        (case (case get_prop parsed ''intent'' of Some (JStr s) \<Rightarrow> intent_of_string s
               | _ \<Rightarrow> None) of
           Some i \<Rightarrow> i
         | None \<Rightarrow> if truthy (get_prop parsed ''ambiguous'') then Clarify else Log),
      amount_ml_x = as_number (get_prop parsed ''amount_ml''),
      relative_time = as_string (get_prop parsed ''relative_time''),
      ambiguous = truthy (get_prop parsed ''ambiguous''),
      clarification_needed = as_string (get_prop parsed ''clarification_needed''),
      adjust_by_ml_x = as_number (get_prop parsed ''adjust_by_ml''),
      undo_count_x = as_number (get_prop parsed ''undo_count'')\<rparr>"

text \<open>\<^verbatim>\<open>data.choices?.[0]?.message?.content\<close> for \<open>data\<close> other than \<^verbatim>\<open>null\<close>.\<close>

definition content_of :: "json \<Rightarrow> json option" where
  "content_of data =
     opt_chain (opt_chain (opt_chain (get_prop data ''choices'') get_index0)
       (\<lambda>v. get_prop v ''message'')) (\<lambda>v. get_prop v ''content'')"

text \<open>The body of the \<^verbatim>\<open>try\<close> block of \<^verbatim>\<open>extractWaterIntent\<close>. Reading \<^verbatim>\<open>data.choices\<close>
  of \<^verbatim>\<open>null\<close> throws.\<close>

definition extract_try :: "Runtime \<Rightarrow> Request \<Rightarrow> exn + LLMExtractionResult" where
  "extract_try rt req =
     (case fetch rt req of
        Rejects e \<Rightarrow> Inl e
      | Response ok body \<Rightarrow>
          if \<not> ok then Inr createFallbackResult
          else case body of
            None \<Rightarrow> Inl SyntaxError
          | Some data \<Rightarrow>
              if data = JNull then Inl TypeError
              else let content = content_of data
                in if \<not> truthy content then Inr createFallbackResult
                   else case parseJSONSafely rt (the content) of
                     Inl e \<Rightarrow> Inl e
                   | Inr parsed \<Rightarrow>
                       if \<not> truthy parsed then Inr createFallbackResult
                       else Inr (normalise (the parsed)))"

fun str_truthy :: "string option \<Rightarrow> bool" where
  "str_truthy None = False"
| "str_truthy (Some s) = (s \<noteq> [])"

text \<open>The request \<^verbatim>\<open>extractWaterIntent\<close> sends (the fixed system prompt, the temperature
  and the token limit are left out).\<close>

definition build_request :: "string \<Rightarrow> Env \<Rightarrow> Request" where
  "build_request text env =
     (let baseUrl = (if str_truthy (OPENAI_BASE_URL env) then the (OPENAI_BASE_URL env)
                     else DEFAULT_OPENAI_URL);
          model = (case OPENAI_MODEL env of None \<Rightarrow> DEFAULT_MODEL | Some m \<Rightarrow> m);
          userContent = (if length text > MAX_USER_MESSAGE_LENGTH
                         then take MAX_USER_MESSAGE_LENGTH text else text)
      in \<lparr>url = baseUrl, authorization = ''Bearer '' @ the (OPENAI_API_KEY env),
           model = model, user_content = userContent\<rparr>)"

text \<open>The result is the list of requests sent and what the function returns or throws.\<close>

definition extractWaterIntent ::
  "Runtime \<Rightarrow> string \<Rightarrow> Env \<Rightarrow> Request list \<times> (exn + LLMExtractionResult)" where
  "extractWaterIntent rt text env =
     (if \<not> str_truthy (OPENAI_API_KEY env)
      then ([], Inr \<lparr>intent_x = Clarify, amount_ml_x = None, relative_time = None,
          ambiguous = True,
          clarification_needed = Some (''I didn't quite catch that - how much water was it? '' @
            ''(Set OPENAI_API_KEY for natural language.)''),
          adjust_by_ml_x = None, undo_count_x = None\<rparr>)
      else ([build_request text env],
            try_catch (extract_try rt (build_request text env))
              (\<lambda>error. Inr createFallbackResult)))"

section \<open>src/lib/parser.ts\<close>

definition mlRe :: rx where
  "mlRe = seqs [Cap digits1, spaces0, lits ''ml'', WordB]"

definition decimalRe :: rx where
  "decimalRe = Seq digits1 (Opt (Seq (Lit CHR ''.'') digits1))"

definition literRe :: rx where
  "literRe = seqs [Cap decimalRe, spaces0,
     alts (lits ''l'') [lits ''liter'', lits ''liters'', lits ''litre'', lits ''litres''], WordB]"

definition halfBottleRe :: rx where
  "halfBottleRe = seqs [Alt (lits ''half'') (lits ''1/2''), spaces0,
     Opt (Seq (Lit CHR ''a'') spaces0), lits ''bottle'']"

definition quarterBottleRe :: rx where
  "quarterBottleRe = seqs [Alt (lits ''quarter'') (lits ''1/4''), spaces0,
     Opt (Seq (Lit CHR ''a'') spaces0), lits ''bottle'']"

definition numericBottleRe :: rx where
  "numericBottleRe = seqs [Cap digits1, spaces0, lits ''bottle'', Opt (Lit CHR ''s''), WordB]"

definition singleBottleRe :: rx where
  "singleBottleRe = seqs [Opt (alts (lits ''one'') [lits ''a'', lits ''1'']), spaces0,
     lits ''bottle'', WordB]"

definition glassRe :: rx where
  "glassRe = seqs [Opt (Cap digits1), spaces0, Opt (Seq (Lit CHR ''a'') spaces0),
     lits ''glass'', Opt (lits ''es''), WordB]"

definition cupRe :: rx where
  "cupRe = seqs [Opt (Cap digits1), spaces0, Opt (Seq (Lit CHR ''a'') spaces0),
     lits ''cup'', Opt (Lit CHR ''s''), WordB]"

definition log_now :: "int \<Rightarrow> number \<Rightarrow> ParseResult" where
  "log_now now amount = no_result\<lparr>success := True, amount_ml := Some amount,
     log_time := Some (nowISTString now)\<rparr>"

text \<open>The patterns 7 and 8 of \<^verbatim>\<open>parseWaterInputRegex\<close> and its last line.\<close>

definition parse_glass_cup :: "int \<Rightarrow> string \<Rightarrow> ParseResult" where
  "parse_glass_cup now lower =
     (let glassMatch = rx_match True glassRe lower;
          glassCount = (case glassMatch of None \<Rightarrow> NaN
             | Some m \<Rightarrow> if str_truthy (group1 m) then parseInt (cap_string (group1 m))
                          else Num 1)
      in if glassMatch \<noteq> None \<and> num_lt (Num 0) glassCount \<and> num_le glassCount (Num 20)
         then log_now now (num_mul (Num 250) glassCount)
         else
          (let cupMatch = rx_match True cupRe lower;
               cupCount = (case cupMatch of None \<Rightarrow> NaN
                  | Some m \<Rightarrow> if str_truthy (group1 m) then parseInt (cap_string (group1 m))
                               else Num 1)
           in if cupMatch \<noteq> None \<and> num_lt (Num 0) cupCount \<and> num_le cupCount (Num 20)
              then log_now now (num_mul (Num 200) cupCount)
              else no_result))"

text \<open>The patterns 3 to 6.\<close>

definition parse_bottles :: "int \<Rightarrow> string \<Rightarrow> UserPreferences \<Rightarrow> ParseResult" where
  "parse_bottles now lower prefs =
     (if rx_match True halfBottleRe lower \<noteq> None
      then log_now now (Math_round (num_mul (Num (of_int (bottle_size_ml prefs))) (Num (1 / 2))))
      else if rx_match True quarterBottleRe lower \<noteq> None
      then log_now now (Math_round (num_mul (Num (of_int (bottle_size_ml prefs))) (Num (1 / 4))))
      else
       (let numericBottleMatch = rx_match True numericBottleRe lower;
            count = (case numericBottleMatch of None \<Rightarrow> NaN
               | Some m \<Rightarrow> parseInt (cap_string (group1 m)))
        in if numericBottleMatch \<noteq> None \<and> num_lt (Num 0) count \<and> num_le count (Num 10)
           then log_now now (num_mul (Num (of_int (bottle_size_ml prefs))) count)
           else if rx_match True singleBottleRe lower \<noteq> None
                   \<and> \<not> str_includes lower ''half'' \<and> \<not> str_includes lower ''quarter''
           then log_now now (Num (of_int (bottle_size_ml prefs)))
           else parse_glass_cup now lower))"

definition parseWaterInputRegex :: "int \<Rightarrow> string \<Rightarrow> UserPreferences \<Rightarrow> ParseResult" where
  "parseWaterInputRegex now text prefs =
     (let lower = toLowerCase text;
          mlMatch = rx_match True mlRe lower;
          mlAmount = (case mlMatch of None \<Rightarrow> NaN
             | Some m \<Rightarrow> parseInt (cap_string (group1 m)))
      in if mlMatch \<noteq> None \<and> num_lt (Num 0) mlAmount \<and> num_le mlAmount (Num 10000)
         then log_now now mlAmount
         else
          (let literMatch = rx_match True literRe lower;
               literAmount = (case literMatch of None \<Rightarrow> NaN
                  | Some m \<Rightarrow> Math_round (num_mul (parseFloat (cap_string (group1 m)))
                                 (Num 1000)))
           in if literMatch \<noteq> None \<and> num_lt (Num 0) literAmount
                 \<and> num_le literAmount (Num 10000)
              then log_now now literAmount
              else parse_bottles now lower prefs))"

definition YESTERDAY_REGEX :: rx where
  "YESTERDAY_REGEX = seqs [WordB, Cap (Alt (lits ''yesterday'') (lits ''last night'')), WordB]"

definition clarify :: "string \<Rightarrow> ParseResult" where
  "clarify prompt = no_result\<lparr>needs_clarification := Some True,
     clarification_prompt := Some prompt\<rparr>"

text \<open>\<^verbatim>\<open>parseWaterInputLLM\<close> after the \<^verbatim>\<open>await\<close>: what it makes of the result of the
  fallback.\<close>

definition resolve_llm :: "int \<Rightarrow> string \<Rightarrow> LLMExtractionResult \<Rightarrow> ParseResult" where
  "resolve_llm now text llmResult =
     (if rx_test True YESTERDAY_REGEX text
         \<and> (intent_x llmResult = Log \<or> amount_ml_x llmResult \<noteq> None)
      then clarify (''I can only log water from today (up to 12 hours ago). '' @
                    ''I can't add yesterday's water to today's total'')
      else if intent_x llmResult = NoAction
      then no_result\<lparr>success := True, intent := Some NoAction\<rparr>
      else if intent_x llmResult = Chitchat
      then no_result\<lparr>success := True, intent := Some Chitchat,
             chitchat_reply := (if str_truthy (clarification_needed llmResult)
                                then clarification_needed llmResult else None)\<rparr>
      else if intent_x llmResult = Query
      then no_result\<lparr>success := True, intent := Some Query\<rparr>
      else if intent_x llmResult = Undo
      then no_result\<lparr>success := True, intent := Some Undo,
             undo_count := Some (case undo_count_x llmResult of
                None \<Rightarrow> Num 1
              | Some c \<Rightarrow> if num_le (Num 1) c then Math_min c (Num 10) else Num 1)\<rparr>
      else if intent_x llmResult = Edit
      then (case adjust_by_ml_x llmResult of
              None \<Rightarrow> clarify ''How much should I reduce by? (e.g. 500ml)''
            | Some adjust \<Rightarrow>
                if num_le adjust (Num 0) \<or> num_lt (Num 10000) adjust
                then clarify ''How much should I reduce by? (e.g. 500ml)''
                else no_result\<lparr>success := True, intent := Some Edit,
                       adjust_by_ml := Some adjust\<rparr>)
      else if intent_x llmResult = Clarify \<or> ambiguous llmResult
              \<or> amount_ml_x llmResult = None
      then clarify (if str_truthy (clarification_needed llmResult)
                    then the (clarification_needed llmResult)
                    else ''I didn't quite catch that - how much water was it?'')
      else let amount = the (amount_ml_x llmResult) in
        if num_le amount (Num 0) \<or> num_lt (Num 10000) amount
        then clarify ''That doesn't seem quite right. How much water was it in ml?''
        else if str_truthy (relative_time llmResult)
        then (case parseRelativeOffset (relative_time llmResult) of
                None \<Rightarrow> clarify (''When did you drink that? '' @
                          ''I can only log water from today (up to 12 hours ago).'')
              | Some offsetHours \<Rightarrow>
                 (case validateRetroactiveTime now offsetHours of
                    None \<Rightarrow> clarify (''I can only log water from today (up to 12 hours ago). '' @
                              ''Could you be more specific?'')
                  | Some validatedTime \<Rightarrow>
                      no_result\<lparr>success := True, intent := Some Log, amount_ml := Some amount,
                        log_time := Some validatedTime\<rparr>))
        else no_result\<lparr>success := True, intent := Some Log, amount_ml := Some amount,
               log_time := Some (nowISTString now)\<rparr>)"

definition parseWaterInputLLM ::
  "Runtime \<Rightarrow> string \<Rightarrow> Env \<Rightarrow> Request list \<times> (exn + ParseResult)" where
  "parseWaterInputLLM rt text env =
     (case extractWaterIntent rt text env of
        (calls, Inl e) \<Rightarrow> (calls, Inl e)
      | (calls, Inr llmResult) \<Rightarrow> (calls, Inr (resolve_llm (now_ms rt) text llmResult)))"

definition TIME_PHRASE_REGEX :: rx where
  "TIME_PHRASE_REGEX = seqs [WordB,
     Cap (alts (lits ''ago'') [lits ''earlier'', lits ''before'', lits ''morning'',
       lits ''afternoon'', lits ''evening'', lits ''hour'', lits ''minute'']), WordB]"

definition parseWaterInput ::
  "Runtime \<Rightarrow> string \<Rightarrow> UserPreferences \<Rightarrow> Env \<Rightarrow> Request list \<times> (exn + ParseResult)" where
  "parseWaterInput rt text prefs env =
     (let hasTimeReference = rx_test True TIME_PHRASE_REGEX text;
          regexResult = parseWaterInputRegex (now_ms rt) text prefs
      in if success regexResult \<and> \<not> hasTimeReference then ([], Inr regexResult)
         else if success regexResult \<and> hasTimeReference then parseWaterInputLLM rt text env
         else parseWaterInputLLM rt text env)"

definition affirmRe :: rx where
  "affirmRe = seqs [Bol, alts (lits ''yes'') [lits ''yeah'', lits ''yep'', lits ''yup'',
     lits ''correct'', lits ''ok'', lits ''okay'', lits ''sure'', lits ''right''], Eol]"

definition sizeMlRe :: rx where
  "sizeMlRe = seqs [Cap digits1, spaces0, lits ''ml'']"

definition sizeLiterRe :: rx where
  "sizeLiterRe = seqs [Cap decimalRe, spaces0,
     alts (lits ''l'') [lits ''liter'', lits ''litre'']]"

definition justNumberRe :: rx where
  "justNumberRe = seqs [Bol, Cap digits1, Eol]"

definition parseBottleSizeResponse :: "string \<Rightarrow> number option" where
  "parseBottleSizeResponse text =
     (let lower = trim (toLowerCase text) in
      if rx_test True affirmRe lower then Some (Num 750)
      else
       (let mlMatch = rx_match True sizeMlRe lower;
            mlSize = (case mlMatch of None \<Rightarrow> NaN
               | Some m \<Rightarrow> parseInt (cap_string (group1 m)))
        in if mlMatch \<noteq> None \<and> num_le (Num 100) mlSize \<and> num_le mlSize (Num 3000)
           then Some mlSize
           else
            (let literMatch = rx_match True sizeLiterRe lower;
                 literSize = (case literMatch of None \<Rightarrow> NaN
                    | Some m \<Rightarrow> Math_round (num_mul (parseFloat (cap_string (group1 m)))
                                   (Num 1000)))
             in if literMatch \<noteq> None \<and> num_le (Num 100) literSize
                   \<and> num_le literSize (Num 3000)
                then Some literSize
                else
                 (let justNumber = rx_match False justNumberRe lower;
                      size = (case justNumber of None \<Rightarrow> NaN
                         | Some m \<Rightarrow> parseInt (cap_string (group1 m)))
                  in if justNumber \<noteq> None \<and> num_le (Num 100) size \<and> num_le size (Num 3000)
                     then Some size
                     else None))))"

section \<open>Sample inputs\<close>

definition env_key :: Env where
  "env_key = \<lparr>OPENAI_API_KEY = Some ''k'', OPENAI_BASE_URL = None, OPENAI_MODEL = None\<rparr>"

definition env_nokey :: Env where
  "env_nokey = \<lparr>OPENAI_API_KEY = None, OPENAI_BASE_URL = None, OPENAI_MODEL = None\<rparr>"

definition rt_of :: "FetchOutcome \<Rightarrow> Runtime" where
  "rt_of out = \<lparr>now_ms = 0, fetch = (\<lambda>_. out), JSON_parse = (\<lambda>_. None),
     ToString = (\<lambda>_. [])\<rparr>"

definition prefs_default :: UserPreferences where
  "prefs_default = \<lparr>chat_id = ''1'', target_ml = 3500, bottle_size_ml = 750\<rparr>"

definition prefs_large :: UserPreferences where
  "prefs_large = \<lparr>chat_id = ''1'', target_ml = 3500, bottle_size_ml = 3000\<rparr>"

(*DEFS-END*)

section \<open>The matcher on runs of digits and of white space\<close>

subsection \<open>Characters\<close>

lemma digit_not_space: "is_digit d \<Longrightarrow> \<not> is_space d"
  by (auto simp: is_digit_def is_space_def)

lemma digit_word: "is_digit d \<Longrightarrow> is_word_char d"
  by (simp add: is_digit_def is_word_char_def Let_def)

lemma canonicalize_not_digit: "\<not> is_digit c \<Longrightarrow> \<not> is_digit (canonicalize c)"
  by (auto simp: is_digit_def canonicalize_def Let_def)

lemma canonicalize_digit: "is_digit d \<Longrightarrow> canonicalize d = d"
  by (auto simp: is_digit_def canonicalize_def Let_def)

lemma chr_eq_digit: "is_digit d \<Longrightarrow> \<not> is_digit c \<Longrightarrow> \<not> chr_eq ic c d"
  using canonicalize_not_digit[of c] canonicalize_digit[of d]
  by (auto simp: chr_eq_def)

lemma lower_digit: "is_digit d \<Longrightarrow> lower_char d = d"
  by (auto simp: is_digit_def lower_char_def Let_def)

subsection \<open>Runs of digits\<close>

lemma star_digit_nil: "rmatch ic (Star (Cls Digit)) (p, [], g) = [(p, [], g)]"
  by (simp add: rmatch.simps(7))

lemma star_digit_cons:
  "rmatch ic (Star (Cls Digit)) (p, x # xs, g) =
     (if is_digit x then rmatch ic (Star (Cls Digit)) (Some x, xs, g) @ [(p, x # xs, g)]
      else [(p, x # xs, g)])"
  by (simp add: progress_def rmatch.simps(7))

lemma star_space_nil: "rmatch ic spaces0 (p, [], g) = [(p, [], g)]"
  by (simp add: spaces0_def rmatch.simps(7))

lemma star_space_cons:
  "rmatch ic spaces0 (p, x # xs, g) =
     (if is_space x then rmatch ic spaces0 (Some x, xs, g) @ [(p, x # xs, g)]
      else [(p, x # xs, g)])"
  by (simp add: progress_def spaces0_def rmatch.simps(7))

lemma set_cap_simp:
  "set_cap (pre @ s) (p, s, g) = (p, s, Some pre)"
  by (simp add: set_cap_def)

lemma star_digit_then:
  assumes rej: "\<And>p d s g. is_digit d \<Longrightarrow> rmatch ic t (p, d # s, g) = []"
    and tl: "tail = [] \<or> \<not> is_digit (hd tail)"
  shows "list_all is_digit ds \<Longrightarrow>
     concat (map (\<lambda>st. rmatch ic t (set_cap (pre @ ds @ tail) st))
                 (rmatch ic (Star (Cls Digit)) (p, ds @ tail, g)))
       = rmatch ic t (prev_after p ds, tail, Some (pre @ ds))"
proof (induction ds arbitrary: p pre)
  case Nil
  have "rmatch ic (Star (Cls Digit)) (p, tail, g) = [(p, tail, g)]"
    using tl by (cases tail) (simp_all add: star_digit_nil star_digit_cons)
  then show ?case
    by (simp add: set_cap_simp prev_after_def)
next
  case (Cons d ds)
  then have d: "is_digit d" and ds: "list_all is_digit ds" by simp_all
  have ih: "concat (map (\<lambda>st. rmatch ic t (set_cap (pre @ d # ds @ tail) st))
                 (rmatch ic (Star (Cls Digit)) (Some d, ds @ tail, g)))
       = rmatch ic t (prev_after (Some d) ds, tail, Some (pre @ d # ds))"
    using Cons.IH[OF ds, of "pre @ [d]" "Some d"] by simp
  have sc: "set_cap (pre @ d # ds @ tail) (p, d # ds @ tail, g) = (p, d # ds @ tail, Some pre)"
    using set_cap_simp[of pre "d # ds @ tail" p g] by simp
  have pa: "prev_after (Some d) ds = prev_after p (d # ds)"
    by (simp add: prev_after_def)
  show ?case
    using d by (simp add: star_digit_cons ih sc rej pa)
qed

lemma numbered_match:
  assumes rej: "\<And>p d s g. is_digit d \<Longrightarrow> rmatch ic t (p, d # s, g) = []"
    and tl: "tail = [] \<or> \<not> is_digit (hd tail)"
    and ds: "ds \<noteq> []" "list_all is_digit ds"
  shows "rmatch ic (Seq (Cap digits1) t) (p, ds @ tail, g)
           = rmatch ic t (Some (last ds), tail, Some ds)"
proof -
  obtain d ds' where e: "ds = d # ds'" using ds by (cases ds) auto
  then have d: "is_digit d" and ds': "list_all is_digit ds'" using ds by simp_all
  have "rmatch ic digits1 (p, d # ds' @ tail, g) = rmatch ic (Star (Cls Digit)) (Some d, ds' @ tail, g)"
    using d by (simp add: digits1_def Many1_def)
  then have "rmatch ic (Seq (Cap digits1) t) (p, ds @ tail, g)
      = concat (map (\<lambda>st. rmatch ic t (set_cap ([d] @ ds' @ tail) st))
                 (rmatch ic (Star (Cls Digit)) (Some d, ds' @ tail, g)))"
    using e by (simp add: comp_def)
  also have "\<dots> = rmatch ic t (prev_after (Some d) ds', tail, Some ([d] @ ds'))"
    using star_digit_then[OF rej tl ds', of "[d]" "Some d" g] by simp
  finally show ?thesis using e by (simp add: prev_after_def)
qed

lemma numbered_nil: "rmatch ic (Seq (Cap digits1) t) (p, [], g) = []"
  by (simp add: digits1_def Many1_def)

lemma numbered_nondigit:
  "\<not> is_digit x \<Longrightarrow> rmatch ic (Seq (Cap digits1) t) (p, x # xs, g) = []"
  by (simp add: digits1_def Many1_def)

subsection \<open>Searching\<close>

lemma search_hit:
  "rmatch ic r (p, s, None) = st # sts \<Longrightarrow>
   search_from ic r p s = Some \<lparr>whole = take (length s - length (fst (snd st))) s,
                                 group1 = snd (snd st)\<rparr>"
  by (cases s) simp_all

lemma search_skip:
  assumes "\<And>p' ds'. ds' \<noteq> [] \<Longrightarrow> list_all is_digit ds' \<Longrightarrow>
             rmatch ic r (p', ds' @ tail, None) = []"
  shows "list_all is_digit ds \<Longrightarrow>
         search_from ic r p (ds @ tail) = search_from ic r (prev_after p ds) tail"
proof (induction ds arbitrary: p)
  case Nil
  then show ?case by (simp add: prev_after_def)
next
  case (Cons d ds)
  have "rmatch ic r (p, (d # ds) @ tail, None) = []"
    using assms[of "d # ds" p] Cons.prems by simp
  then show ?case
    using Cons.IH[of "Some d"] Cons.prems by (simp add: prev_after_def)
qed

section \<open>The fallback client never throws\<close>

lemma extract_caught:
  "\<exists>r. try_catch (extract_try rt req) (\<lambda>error. Inr createFallbackResult) = Inr r"
  by (cases "extract_try rt req") (simp_all add: try_catch_def)

lemma parseJSONSafely_unparseable:
  assumes "\<And>s. JSON_parse rt s = None"
  shows "parseJSONSafely rt c = Inl TypeError \<or> parseJSONSafely rt c = Inr None"
  using assms by (cases c) (simp_all add: parseJSONSafely_def split: option.splits)

text \<open>
  Claim C6. \<^verbatim>\<open>extractWaterIntent\<close> returns a value on every input and every behaviour of
  the network and of \<^verbatim>\<open>JSON.parse\<close>. Without a credential (absent or empty) it sends no
  request and returns the clarify/ambiguous record. With a credential, when the request
  is rejected (transport error or timeout), the status is not a success, the body is not
  JSON, the content is missing or empty, or no text handed to \<^verbatim>\<open>JSON.parse\<close> parses, it
  returns \<open>createFallbackResult\<close>, which is clarify/ambiguous as well.
\<close>

theorem extractWaterIntent_never_throws:
  "(\<exists>r. snd (extractWaterIntent rt text env) = Inr r)
   \<and> (\<not> str_truthy (OPENAI_API_KEY env) \<longrightarrow>
        fst (extractWaterIntent rt text env) = []
        \<and> (\<exists>r. snd (extractWaterIntent rt text env) = Inr r
               \<and> intent_x r = Clarify \<and> ambiguous r \<and> amount_ml_x r = None))
   \<and> (str_truthy (OPENAI_API_KEY env) \<longrightarrow>
        (fetch rt (build_request text env) = Rejects e \<longrightarrow>
           snd (extractWaterIntent rt text env) = Inr createFallbackResult)
        \<and> (fetch rt (build_request text env) = Response False body \<longrightarrow>
           snd (extractWaterIntent rt text env) = Inr createFallbackResult)
        \<and> (fetch rt (build_request text env) = Response True None \<longrightarrow>
           snd (extractWaterIntent rt text env) = Inr createFallbackResult)
        \<and> (fetch rt (build_request text env) = Response True (Some data)
             \<and> (data = JNull \<or> \<not> truthy (content_of data)) \<longrightarrow>
           snd (extractWaterIntent rt text env) = Inr createFallbackResult)
        \<and> (fetch rt (build_request text env) = Response True (Some data)
             \<and> (\<forall>s. JSON_parse rt s = None) \<longrightarrow>
           snd (extractWaterIntent rt text env) = Inr createFallbackResult))
   \<and> intent_x createFallbackResult = Clarify \<and> ambiguous createFallbackResult
   \<and> amount_ml_x createFallbackResult = None"
proof (intro conjI impI)
  show "\<exists>r. snd (extractWaterIntent rt text env) = Inr r"
    using extract_caught[of rt "build_request text env"]
    by (auto simp: extractWaterIntent_def)
next
  assume "\<not> str_truthy (OPENAI_API_KEY env)"
  then show "fst (extractWaterIntent rt text env) = []"
    by (simp add: extractWaterIntent_def)
next
  assume "\<not> str_truthy (OPENAI_API_KEY env)"
  then show "\<exists>r. snd (extractWaterIntent rt text env) = Inr r
               \<and> intent_x r = Clarify \<and> ambiguous r \<and> amount_ml_x r = None"
    by (simp add: extractWaterIntent_def)
next
  assume "str_truthy (OPENAI_API_KEY env)" "fetch rt (build_request text env) = Rejects e"
  then show "snd (extractWaterIntent rt text env) = Inr createFallbackResult"
    by (simp add: extractWaterIntent_def extract_try_def try_catch_def)
next
  assume "str_truthy (OPENAI_API_KEY env)"
    "fetch rt (build_request text env) = Response False body"
  then show "snd (extractWaterIntent rt text env) = Inr createFallbackResult"
    by (simp add: extractWaterIntent_def extract_try_def try_catch_def)
next
  assume "str_truthy (OPENAI_API_KEY env)"
    "fetch rt (build_request text env) = Response True None"
  then show "snd (extractWaterIntent rt text env) = Inr createFallbackResult"
    by (simp add: extractWaterIntent_def extract_try_def try_catch_def)
next
  assume "str_truthy (OPENAI_API_KEY env)"
    "fetch rt (build_request text env) = Response True (Some data)
       \<and> (data = JNull \<or> \<not> truthy (content_of data))"
  then show "snd (extractWaterIntent rt text env) = Inr createFallbackResult"
    by (auto simp: extractWaterIntent_def extract_try_def try_catch_def)
next
  assume k: "str_truthy (OPENAI_API_KEY env)"
    and f: "fetch rt (build_request text env) = Response True (Some data)
       \<and> (\<forall>s. JSON_parse rt s = None)"
  then have "parseJSONSafely rt (the (content_of data)) = Inl TypeError
      \<or> parseJSONSafely rt (the (content_of data)) = Inr None"
    using parseJSONSafely_unparseable[of rt "the (content_of data)"] by simp
  then have "try_catch (extract_try rt (build_request text env))
      (\<lambda>error. Inr createFallbackResult) = Inr createFallbackResult"
    using f by (auto simp: extract_try_def try_catch_def Let_def split: sum.splits)
  then show "snd (extractWaterIntent rt text env) = Inr createFallbackResult"
    using k by (simp add: extractWaterIntent_def)
qed (simp_all add: createFallbackResult_def)

theorem extractWaterIntent_never_throws_witness:
  "fst (extractWaterIntent (rt_of (Rejects TimeoutError)) ''hi'' env_nokey) = []
   \<and> snd (extractWaterIntent (rt_of (Rejects TimeoutError)) ''hi'' env_key) = Inr createFallbackResult
   \<and> snd (extractWaterIntent (rt_of (Response False None)) ''hi'' env_key) = Inr createFallbackResult
   \<and> snd (extractWaterIntent (rt_of (Response True None)) ''hi'' env_key) = Inr createFallbackResult
   \<and> snd (extractWaterIntent (rt_of (Response True (Some (JObj [])))) ''hi'' env_key)
        = Inr createFallbackResult
   \<and> snd (extractWaterIntent (rt_of (Response True (Some (JObj [(''choices'',
        JArr [JObj [(''message'', JObj [(''content'', JStr ''not json'')])]])])))) ''hi'' env_key)
        = Inr createFallbackResult"
  using extractWaterIntent_never_throws[of "rt_of (Rejects TimeoutError)" "''hi''" env_nokey]
    extractWaterIntent_never_throws[of "rt_of (Rejects TimeoutError)" "''hi''" env_key TimeoutError]
    extractWaterIntent_never_throws[of "rt_of (Response False None)" "''hi''" env_key _ None]
    extractWaterIntent_never_throws[of "rt_of (Response True None)" "''hi''" env_key]
    extractWaterIntent_never_throws[of "rt_of (Response True (Some (JObj [])))" "''hi''" env_key
       _ _ "JObj []"]
    extractWaterIntent_never_throws[of "rt_of (Response True (Some (JObj [(''choices'',
        JArr [JObj [(''message'', JObj [(''content'', JStr ''not json'')])]])])))" "''hi''" env_key
       _ _ "JObj [(''choices'',
        JArr [JObj [(''message'', JObj [(''content'', JStr ''not json'')])]])]"]
  by (simp add: env_key_def env_nokey_def rt_of_def content_of_def)

lemma nd [simp]:
  "\<not> is_digit CHR ''a''" "\<not> is_digit CHR ''b''" "\<not> is_digit CHR ''c''" "\<not> is_digit CHR ''d''"
  "\<not> is_digit CHR ''e''" "\<not> is_digit CHR ''f''" "\<not> is_digit CHR ''g''" "\<not> is_digit CHR ''h''"
  "\<not> is_digit CHR ''i''" "\<not> is_digit CHR ''j''" "\<not> is_digit CHR ''k''" "\<not> is_digit CHR ''l''"
  "\<not> is_digit CHR ''m''" "\<not> is_digit CHR ''n''" "\<not> is_digit CHR ''o''" "\<not> is_digit CHR ''p''"
  "\<not> is_digit CHR ''q''" "\<not> is_digit CHR ''r''" "\<not> is_digit CHR ''s''" "\<not> is_digit CHR ''t''"
  "\<not> is_digit CHR ''u''" "\<not> is_digit CHR ''v''" "\<not> is_digit CHR ''w''" "\<not> is_digit CHR ''x''"
  "\<not> is_digit CHR ''y''" "\<not> is_digit CHR ''z''" "\<not> is_digit CHR '' ''" "\<not> is_digit CHR ''/''"
  "\<not> is_digit CHR ''.''"
  by (simp_all add: is_digit_def)

lemma show_nat_digits: "show_nat n \<noteq> [] \<and> list_all is_digit (show_nat n)"
proof (induction n rule: show_nat.induct)
  case (1 n)
  have "is_digit (digit_char k)" if "k < 10" for k
    using that by (simp add: is_digit_def digit_char_def)
  then show ?case
    using 1 by (subst (1 2) show_nat.simps) auto
qed

lemma digits_val_snoc: "digits_val (ds @ [c]) = 10 * digits_val ds + digit_val c"
  by (simp add: digits_val_def)

lemma digits_val_show_nat: "digits_val (show_nat n) = n"
proof (induction n rule: show_nat.induct)
  case (1 n)
  have dv: "digit_val (digit_char k) = k" if "k < 10" for k
    using that by (simp add: digit_val_def digit_char_def)
  show ?case
  proof (cases "n < 10")
    case True
    then show ?thesis
      using dv[of n] by (subst show_nat.simps) (simp add: digits_val_def)
  next
    case False
    then show ?thesis
      using 1 dv[of "n mod 10"]
      by (subst show_nat.simps) (simp add: digits_val_snoc)
  qed
qed

lemma parseInt_digits:
  assumes "ds \<noteq> []" "list_all is_digit ds"
  shows "parseInt ds = Num (of_nat (digits_val ds))"
proof -
  obtain d ds' where e: "ds = d # ds'" using assms by (cases ds) auto
  then have d: "is_digit d" using assms by simp
  then have nd: "\<not> is_space d" "d \<noteq> CHR ''-''" "d \<noteq> CHR ''+''"
    by (auto simp: is_digit_def is_space_def)
  have tw: "takeWhile is_digit ds' = ds'"
    using assms e by (simp add: list_all_iff)
  show ?thesis
    using e d nd by (simp add: parseInt_def tw)
qed

lemma toLowerCase_append: "toLowerCase (a @ b) = toLowerCase a @ toLowerCase b"
  by (simp add: toLowerCase_def)

lemma toLowerCase_digits: "list_all is_digit ds \<Longrightarrow> toLowerCase ds = ds"
  by (induction ds) (simp_all add: toLowerCase_def lower_digit)

lemma numbered_no_match:
  assumes rej: "\<And>p d s g. is_digit d \<Longrightarrow> rmatch ic t (p, d # s, g) = []"
    and tl: "tail = [] \<or> \<not> is_digit (hd tail)"
    and tfail: "\<And>q c. rmatch ic t (q, tail, c) = []"
    and rest: "\<And>q. search_from ic (Seq (Cap digits1) t) q tail = None"
    and ds: "list_all is_digit ds"
  shows "search_from ic (Seq (Cap digits1) t) p (ds @ tail) = None"
proof -
  have "rmatch ic (Seq (Cap digits1) t) (p', ds' @ tail, None) = []"
    if "ds' \<noteq> []" "list_all is_digit ds'" for p' ds'
    using numbered_match[OF rej tl that] tfail by simp
  then show ?thesis
    using search_skip[where tail=tail and r="Seq (Cap digits1) t" and ds=ds and p=p and ic=ic] ds rest by simp
qed

lemma numbered_first_match:
  assumes rej: "\<And>p d s g. is_digit d \<Longrightarrow> rmatch ic t (p, d # s, g) = []"
    and tl: "tail = [] \<or> \<not> is_digit (hd tail)"
    and ds: "ds \<noteq> []" "list_all is_digit ds"
    and hit: "rmatch ic t (Some (last ds), tail, Some ds) = st # sts"
  shows "search_from ic (Seq (Cap digits1) t) p (ds @ tail) =
           Some \<lparr>whole = take (length (ds @ tail) - length (fst (snd st))) (ds @ tail),
                 group1 = snd (snd st)\<rparr>"
  using search_hit[of ic "Seq (Cap digits1) t" p "ds @ tail" st sts]
    numbered_match[OF rej tl ds, of p None] hit by simp

lemma letter_no_match:
  assumes rej: "\<And>p d s g. is_digit d \<Longrightarrow> rmatch ic r (p, d # s, g) = []"
    and rest: "\<And>q. search_from ic r q tail = None"
    and ds: "list_all is_digit ds"
  shows "search_from ic r p (ds @ tail) = None"
proof -
  have "rmatch ic r (p', ds' @ tail, None) = []"
    if "ds' \<noteq> []" "list_all is_digit ds'" for p' ds'
    using that rej by (cases ds') simp_all
  then show ?thesis
    using search_skip[where tail=tail and r=r and ds=ds and p=p and ic=ic] ds rest by simp
qed

lemma digits1_progress:
  "st' \<in> set (rmatch ic (Cap digits1) (p, s, g)) \<Longrightarrow> progress (p, s, g) st'"
proof -
  have star: "st' \<in> set (rmatch ic (Star (Cls Digit)) (q, s, g)) \<Longrightarrow>
      length (fst (snd st')) \<le> length s" for q s g st'
  proof (induction s arbitrary: q)
    case Nil
    then show ?case by (simp add: star_digit_nil)
  next
    case (Cons x xs)
    then show ?case by (fastforce simp: star_digit_cons split: if_splits)
  qed
  assume "st' \<in> set (rmatch ic (Cap digits1) (p, s, g))"
  then show ?thesis
    using star by (cases s) (fastforce simp: digits1_def Many1_def progress_def set_cap_def
        split: if_splits)+
qed

lemma opt_numbered:
  "rmatch ic (Seq (Opt (Cap digits1)) t) (p, s, g) =
     rmatch ic (Seq (Cap digits1) t) (p, s, g) @ rmatch ic t (p, s, g)"
proof -
  have "filter (progress (p, s, g)) (rmatch ic (Cap digits1) (p, s, g))
          = rmatch ic (Cap digits1) (p, s, g)"
    using digits1_progress by (simp add: filter_id_conv del: rmatch.simps)
  then show ?thesis by (simp del: rmatch.simps(10))
qed

lemma opt_numbered_no_match:
  assumes rej: "\<And>p d s g. is_digit d \<Longrightarrow> rmatch ic t (p, d # s, g) = []"
    and tl: "tail = [] \<or> \<not> is_digit (hd tail)"
    and tfail: "\<And>q c. rmatch ic t (q, tail, c) = []"
    and rest: "\<And>q. search_from ic (Seq (Opt (Cap digits1)) t) q tail = None"
    and ds: "list_all is_digit ds"
  shows "search_from ic (Seq (Opt (Cap digits1)) t) p (ds @ tail) = None"
proof -
  have "rmatch ic (Seq (Opt (Cap digits1)) t) (p', ds' @ tail, None) = []"
    if "ds' \<noteq> []" "list_all is_digit ds'" for p' ds'
  proof -
    have "rmatch ic t (p', ds' @ tail, None) = []"
      using that rej by (cases ds') simp_all
    then show ?thesis
      using numbered_match[OF rej tl that] tfail by (simp add: opt_numbered del: rmatch.simps)
  qed
  then show ?thesis
    using search_skip[where tail=tail and r="Seq (Opt (Cap digits1)) t" and ds=ds and p=p and ic=ic] ds rest by simp
qed

lemmas ev = chr_eq_def canonicalize_def is_space_def is_digit_def is_word_char_def Let_def
  star_space_nil star_space_cons digits1_def Many1_def

lemma ml_on_bottles:
  assumes "list_all is_digit ds"
  shows "rx_match True mlRe (ds @ '' bottles'') = None"
  unfolding rx_match_def mlRe_def seqs.simps
proof (rule numbered_no_match[OF _ _ _ _ assms])
  show "rmatch True (Seq spaces0 (Seq (lits ''ml'') WordB)) (p, d # s, g) = []"
    if "is_digit d" for p d s g
    using that by (simp add: star_space_cons digit_not_space chr_eq_digit)
  show "'' bottles'' = [] \<or> \<not> is_digit (hd '' bottles'')" by simp
  show "rmatch True (Seq spaces0 (Seq (lits ''ml'') WordB)) (q, '' bottles'', c) = []" for q c
    by (simp add: ev)
  show "search_from True (Seq (Cap digits1) (Seq spaces0 (Seq (lits ''ml'') WordB))) q
          '' bottles'' = None" for q
    by (simp add: ev)
qed

text \<open>Evaluation of the character tests on character literals only, so that a character
  variable of a statement stays as it is.\<close>

lemma chr_eq_lit:
  "chr_eq ic c (Char b0 b1 b2 b3 b4 b5 b6 b7) =
     (if ic then (of_char (canonicalize c) :: nat)
                   = of_char (canonicalize (Char b0 b1 b2 b3 b4 b5 b6 b7))
      else c = Char b0 b1 b2 b3 b4 b5 b6 b7)"
  by (simp add: chr_eq_def)

lemma canonicalize_lit:
  "canonicalize (Char b0 b1 b2 b3 b4 b5 b6 b7) =
     (let n = (of_char (Char b0 b1 b2 b3 b4 b5 b6 b7) :: nat) in
      if (97 \<le> n \<and> n \<le> 122) \<or> (224 \<le> n \<and> n \<le> 254 \<and> n \<noteq> 247)
      then char_of (n - 32) else Char b0 b1 b2 b3 b4 b5 b6 b7)"
  by (simp add: canonicalize_def)

lemma is_space_lit:
  "is_space (Char b0 b1 b2 b3 b4 b5 b6 b7) =
     ((of_char (Char b0 b1 b2 b3 b4 b5 b6 b7) :: nat) \<in> {9, 10, 11, 12, 13, 32, 160})"
  by (simp add: is_space_def)

lemma is_digit_lit:
  "is_digit (Char b0 b1 b2 b3 b4 b5 b6 b7) =
     (48 \<le> (of_char (Char b0 b1 b2 b3 b4 b5 b6 b7) :: nat)
      \<and> (of_char (Char b0 b1 b2 b3 b4 b5 b6 b7) :: nat) \<le> 57)"
  by (simp add: is_digit_def)

lemma is_word_lit:
  "is_word_char (Char b0 b1 b2 b3 b4 b5 b6 b7) =
     (let n = (of_char (Char b0 b1 b2 b3 b4 b5 b6 b7) :: nat) in
      (48 \<le> n \<and> n \<le> 57) \<or> (65 \<le> n \<and> n \<le> 90) \<or> (97 \<le> n \<and> n \<le> 122) \<or> n = 95)"
  by (simp add: is_word_char_def)

lemmas ev_lit = chr_eq_lit canonicalize_lit is_space_lit is_digit_lit is_word_lit Let_def
  star_space_nil star_space_cons digits1_def Many1_def

lemmas ev_sym = chr_eq_digit digit_not_space digit_word

lemma star_digit_run:
  assumes rej: "\<And>p d s g. is_digit d \<Longrightarrow> k (p, d # s, g) = []"
    and tl: "tail = [] \<or> \<not> is_digit (hd tail)"
  shows "list_all is_digit ds \<Longrightarrow>
     concat (map k (rmatch ic (Star (Cls Digit)) (p, ds @ tail, g)))
       = k (prev_after p ds, tail, g)"
proof (induction ds arbitrary: p)
  case Nil
  have "rmatch ic (Star (Cls Digit)) (p, tail, g) = [(p, tail, g)]"
    using tl by (cases tail) (simp_all add: star_digit_nil star_digit_cons)
  then show ?case
    by (simp add: prev_after_def)
next
  case (Cons d ds)
  then have d: "is_digit d" and ds: "list_all is_digit ds" by simp_all
  have pa: "prev_after (Some d) ds = prev_after p (d # ds)"
    by (simp add: prev_after_def)
  show ?case
    using d Cons.IH[OF ds, of "Some d"] by (simp add: star_digit_cons rej pa)
qed

lemma canon_low:
  "(of_char (canonicalize a) :: nat) < 65 \<or> (of_char (canonicalize a) :: nat) = 95 \<Longrightarrow>
   canonicalize a = a"
  by (auto simp: canonicalize_def Let_def split: if_splits)

lemma chr_eq_dot: "chr_eq ic CHR ''.'' a = (a = CHR ''.'')"
proof (cases "chr_eq ic CHR ''.'' a")
  case True
  then have "canonicalize a = CHR ''.'' \<or> a = CHR ''.''"
    by (auto simp: chr_eq_def canonicalize_lit split: if_splits)
  then show ?thesis using canon_low[of a] True by auto
next
  case False
  then show ?thesis by (auto simp: chr_eq_def split: if_splits)
qed

lemma concat_map_concat:
  "concat (map f (concat (map h xs))) = concat (map (\<lambda>x. concat (map f (h x))) xs)"
  by (induction xs) simp_all

lemma decimal_match:
  assumes rej: "\<And>p d s g. is_digit d \<Longrightarrow> rmatch ic t (p, d # s, g) = []"
    and tl: "tail = [] \<or> (\<not> is_digit (hd tail) \<and> hd tail \<noteq> CHR ''.'')"
    and ds: "ds \<noteq> []" "list_all is_digit ds"
  shows "rmatch ic (Seq (Cap decimalRe) t) (p, ds @ tail, g)
           = rmatch ic t (Some (last ds), tail, Some ds)"
proof -
  obtain d ds' where e: "ds = d # ds'" using ds by (cases ds) auto
  then have d: "is_digit d" and ds': "list_all is_digit ds'" using ds by simp_all
  define frac where "frac = Opt (Seq (Lit CHR ''.'') digits1)"
  define k where "k = (\<lambda>st. concat (map (\<lambda>st'. rmatch ic t (set_cap (ds @ tail) st'))
                                        (rmatch ic frac st)))"
  have dot: "\<not> chr_eq ic CHR ''.'' x" if "is_digit x" for x
    using that chr_eq_digit[of x "CHR ''.''" ic] by (simp add: is_digit_lit)
  have rejk: "k (p, x # s, g) = []" if "is_digit x" for p x s g
    using that dot[of x] rej
    by (simp add: k_def frac_def set_cap_def)
  have tl': "tail = [] \<or> \<not> is_digit (hd tail)" using tl by auto
  have "rmatch ic digits1 (p, d # ds' @ tail, g)
          = rmatch ic (Star (Cls Digit)) (Some d, ds' @ tail, g)"
    using d by (simp add: digits1_def Many1_def)
  then have "rmatch ic (Seq (Cap decimalRe) t) (p, ds @ tail, g)
      = concat (map k (rmatch ic (Star (Cls Digit)) (Some d, ds' @ tail, g)))"
    using e by (simp add: decimalRe_def k_def frac_def comp_def concat_map_concat)
  also have "\<dots> = k (prev_after (Some d) ds', tail, g)"
    using star_digit_run[of k tail ds', OF rejk tl' ds'] by simp
  also have "\<dots> = rmatch ic t (Some (last ds), tail, Some ds)"
  proof -
    have "rmatch ic frac (q, tail, g) = [(q, tail, g)]" for q
      using tl by (cases tail) (auto simp: frac_def chr_eq_dot)
    moreover have "set_cap (ds @ tail) (q, tail, g) = (q, tail, Some ds)" for q
      by (simp add: set_cap_simp)
    ultimately show ?thesis
      using e by (simp add: k_def prev_after_def)
  qed
  finally show ?thesis .
qed

lemma run_no_match:
  assumes run: "\<And>p' ds'. ds' \<noteq> [] \<Longrightarrow> list_all is_digit ds' \<Longrightarrow>
        rmatch ic r (p', ds' @ tail, None) = rmatch ic t (Some (last ds'), tail, Some ds')"
    and tfail: "\<And>q c. rmatch ic t (q, tail, c) = []"
    and rest: "\<And>q. search_from ic r q tail = None"
    and ds: "list_all is_digit ds"
  shows "search_from ic r p (ds @ tail) = None"
  using search_skip[where tail=tail and r=r and ds=ds and p=p and ic=ic] run tfail ds rest
  by simp

lemma run_first_match:
  assumes run: "rmatch ic r (p, ds @ tail, None) = rmatch ic t (Some (last ds), tail, Some ds)"
    and hit: "rmatch ic t (Some (last ds), tail, Some ds) = st # sts"
  shows "search_from ic r p (ds @ tail) =
           Some \<lparr>whole = take (length (ds @ tail) - length (fst (snd st))) (ds @ tail),
                 group1 = snd (snd st)\<rparr>"
  using search_hit[of ic r p "ds @ tail" st sts] run hit by simp

lemma liter_on_bottles:
  assumes "list_all is_digit ds"
  shows "rx_match True literRe (ds @ '' bottles'') = None"
  unfolding rx_match_def literRe_def seqs.simps
proof (rule run_no_match[OF _ _ _ assms])
  let ?t = "Seq spaces0 (Seq (alts (lits ''l'')
               [lits ''liter'', lits ''liters'', lits ''litre'', lits ''litres'']) WordB)"
  have rej: "rmatch True ?t (p, d # s, g) = []" if "is_digit d" for p d s g
    using that by (simp add: star_space_cons ev_sym is_digit_lit)
  show "rmatch True (Seq (Cap decimalRe) ?t) (p', ds' @ '' bottles'', None)
          = rmatch True ?t (Some (last ds'), '' bottles'', Some ds')"
    if "ds' \<noteq> []" "list_all is_digit ds'" for p' ds'
    using decimal_match[OF rej _ that, of "'' bottles''"] by simp
  show "rmatch True ?t (q, '' bottles'', c) = []" for q c
    by (simp add: ev_lit)
  show "search_from True (Seq (Cap decimalRe) ?t) q '' bottles'' = None" for q
    by (simp add: ev_lit decimalRe_def)
qed

lemma half_on_bottles:
  assumes "list_all is_digit ds"
  shows "rx_match True halfBottleRe (ds @ '' bottles'') = None"
  unfolding rx_match_def
proof (rule search_skip[where tail="'' bottles''" and ds=ds, OF _ assms, THEN trans])
  show "rmatch True halfBottleRe (p', ds' @ '' bottles'', None) = []"
    if ne: "ds' \<noteq> []" and dg: "list_all is_digit ds'" for p' ds'
  proof -
    obtain d r where e: "ds' = d # r" using ne by (cases ds') auto
    show ?thesis
    proof (cases r)
      case Nil
      then show ?thesis using e dg
        by (simp add: halfBottleRe_def ev_lit ev_sym split: if_splits)
    next
      case (Cons d' r')
      then show ?thesis using e dg
        by (simp add: halfBottleRe_def ev_lit ev_sym split: if_splits)
    qed
  qed
  show "search_from True halfBottleRe (prev_after p ds) '' bottles'' = None" for p
    by (simp add: halfBottleRe_def ev_lit)
qed

lemma quarter_on_bottles:
  assumes "list_all is_digit ds"
  shows "rx_match True quarterBottleRe (ds @ '' bottles'') = None"
  unfolding rx_match_def
proof (rule search_skip[where tail="'' bottles''" and ds=ds, OF _ assms, THEN trans])
  show "rmatch True quarterBottleRe (p', ds' @ '' bottles'', None) = []"
    if ne: "ds' \<noteq> []" and dg: "list_all is_digit ds'" for p' ds'
  proof -
    obtain d r where e: "ds' = d # r" using ne by (cases ds') auto
    show ?thesis
    proof (cases r)
      case Nil
      then show ?thesis using e dg
        by (simp add: quarterBottleRe_def ev_lit ev_sym split: if_splits)
    next
      case (Cons d' r')
      then show ?thesis using e dg
        by (simp add: quarterBottleRe_def ev_lit ev_sym split: if_splits)
    qed
  qed
  show "search_from True quarterBottleRe (prev_after p ds) '' bottles'' = None" for p
    by (simp add: quarterBottleRe_def ev_lit)
qed

lemma single_on_bottles:
  assumes "list_all is_digit ds"
  shows "rx_match True singleBottleRe (ds @ '' bottles'') = None"
  unfolding rx_match_def
proof (rule search_skip[where tail="'' bottles''" and ds=ds, OF _ assms, THEN trans])
  show "rmatch True singleBottleRe (p', ds' @ '' bottles'', None) = []"
    if ne: "ds' \<noteq> []" and dg: "list_all is_digit ds'" for p' ds'
  proof -
    obtain d r where e: "ds' = d # r" using ne by (cases ds') auto
    show ?thesis
    proof (cases r)
      case Nil
      then show ?thesis using e dg
        by (simp add: singleBottleRe_def ev_lit ev_sym progress_def split: if_splits)
    next
      case (Cons d' r')
      then show ?thesis using e dg
        by (simp add: singleBottleRe_def ev_lit ev_sym progress_def split: if_splits)
    qed
  qed
  show "search_from True singleBottleRe (prev_after p ds) '' bottles'' = None" for p
    by (simp add: singleBottleRe_def ev_lit progress_def)
qed

lemma numeric_on_bottles:
  assumes "ds \<noteq> []" "list_all is_digit ds"
  shows "rx_match True numericBottleRe (ds @ '' bottles'')
           = Some \<lparr>whole = ds @ '' bottles'', group1 = Some ds\<rparr>"
proof -
  let ?t = "Seq spaces0 (Seq (lits ''bottle'') (Seq (Opt (Lit CHR ''s'')) WordB))"
  have rej: "rmatch True ?t (p, d # s, g) = []" if "is_digit d" for p d s g
    using that by (simp add: star_space_cons ev_sym is_digit_lit)
  have run: "rmatch True (Seq (Cap digits1) ?t) (None, ds @ '' bottles'', None)
          = rmatch True ?t (Some (last ds), '' bottles'', Some ds)"
    using numbered_match[OF rej _ assms, of "'' bottles''"] by simp
  have hit: "rmatch True ?t (Some (last ds), '' bottles'', Some ds)
          = [(Some CHR ''s'', [], Some ds)]"
    by (simp add: ev_lit progress_def)
  show ?thesis
    using run_first_match[OF run hit] by (simp add: rx_match_def numericBottleRe_def)
qed

lemma glass_on_bottles:
  assumes "list_all is_digit ds"
  shows "rx_match True glassRe (ds @ '' bottles'') = None"
  unfolding rx_match_def glassRe_def seqs.simps
proof (rule opt_numbered_no_match[OF _ _ _ _ assms])
  let ?t = "Seq spaces0 (Seq (Opt (Seq (Lit CHR ''a'') spaces0))
              (Seq (lits ''glass'') (Seq (Opt (lits ''es'')) WordB)))"
  show "rmatch True ?t (p, d # s, g) = []" if "is_digit d" for p d s g
    using that by (simp add: star_space_cons ev_sym is_digit_lit)
  show "'' bottles'' = [] \<or> \<not> is_digit (hd '' bottles'')" by simp
  show "rmatch True ?t (q, '' bottles'', c) = []" for q c
    by (simp add: ev_lit)
  show "search_from True (Seq (Opt (Cap digits1)) ?t) q '' bottles'' = None" for q
    by (simp add: ev_lit)
qed

lemma cup_on_bottles:
  assumes "list_all is_digit ds"
  shows "rx_match True cupRe (ds @ '' bottles'') = None"
  unfolding rx_match_def cupRe_def seqs.simps
proof (rule opt_numbered_no_match[OF _ _ _ _ assms])
  let ?t = "Seq spaces0 (Seq (Opt (Seq (Lit CHR ''a'') spaces0))
              (Seq (lits ''cup'') (Seq (Opt (Lit CHR ''s'')) WordB)))"
  show "rmatch True ?t (p, d # s, g) = []" if "is_digit d" for p d s g
    using that by (simp add: star_space_cons ev_sym is_digit_lit)
  show "'' bottles'' = [] \<or> \<not> is_digit (hd '' bottles'')" by simp
  show "rmatch True ?t (q, '' bottles'', c) = []" for q c
    by (simp add: ev_lit)
  show "search_from True (Seq (Opt (Cap digits1)) ?t) q '' bottles'' = None" for q
    by (simp add: ev_lit)
qed

lemma time_rejects_digit:
  "is_digit d \<Longrightarrow> rmatch True TIME_PHRASE_REGEX (p, d # s, g) = []"
  by (simp add: TIME_PHRASE_REGEX_def ev_sym is_digit_lit)

lemma time_on_bottles:
  assumes "list_all is_digit ds"
  shows "rx_test True TIME_PHRASE_REGEX (ds @ '' bottles'') = False"
proof -
  have "search_from True TIME_PHRASE_REGEX q '' bottles'' = None" for q
    by (simp add: TIME_PHRASE_REGEX_def ev_lit)
  then show ?thesis
    using letter_no_match[where r=TIME_PHRASE_REGEX and ic=True and tail="'' bottles''",
        OF time_rejects_digit _ assms]
    by (simp add: rx_test_def rx_match_def)
qed

lemma ml_on_ml:
  assumes "ds \<noteq> []" "list_all is_digit ds"
  shows "rx_match True mlRe (ds @ ''ml'') = Some \<lparr>whole = ds @ ''ml'', group1 = Some ds\<rparr>"
proof -
  let ?t = "Seq spaces0 (Seq (lits ''ml'') WordB)"
  have rej: "rmatch True ?t (p, d # s, g) = []" if "is_digit d" for p d s g
    using that by (simp add: star_space_cons ev_sym is_digit_lit)
  have run: "rmatch True (Seq (Cap digits1) ?t) (None, ds @ ''ml'', None)
          = rmatch True ?t (Some (last ds), ''ml'', Some ds)"
    using numbered_match[OF rej _ assms, of "''ml''"] by simp
  have hit: "rmatch True ?t (Some (last ds), ''ml'', Some ds) = [(Some CHR ''l'', [], Some ds)]"
    by (simp add: ev_lit)
  show ?thesis
    using run_first_match[OF run hit] by (simp add: rx_match_def mlRe_def)
qed

lemma time_on_ml:
  assumes "list_all is_digit ds"
  shows "rx_test True TIME_PHRASE_REGEX (ds @ ''ml'') = False"
proof -
  have "search_from True TIME_PHRASE_REGEX q ''ml'' = None" for q
    by (simp add: TIME_PHRASE_REGEX_def ev_lit)
  then show ?thesis
    using letter_no_match[where r=TIME_PHRASE_REGEX and ic=True and tail="''ml''",
        OF time_rejects_digit _ assms]
    by (simp add: rx_test_def rx_match_def)
qed

lemma log_or_none_if:
  "(r1 = no_result \<or> (\<exists>a. r1 = log_now now a)) \<Longrightarrow>
   (r2 = no_result \<or> (\<exists>a. r2 = log_now now a)) \<Longrightarrow>
   ((if c then r1 else r2) = no_result \<or> (\<exists>a. (if c then r1 else r2) = log_now now a))"
  by simp

lemma glass_cup_cases:
  "parse_glass_cup now lower = no_result \<or> (\<exists>a. parse_glass_cup now lower = log_now now a)"
  unfolding parse_glass_cup_def Let_def
  by (intro log_or_none_if) blast+

lemma bottles_cases:
  "parse_bottles now lower prefs = no_result
   \<or> (\<exists>a. parse_bottles now lower prefs = log_now now a)"
  unfolding parse_bottles_def Let_def
  by (intro log_or_none_if glass_cup_cases) blast+

lemma regex_result_cases:
  "parseWaterInputRegex now txt prefs = no_result
   \<or> (\<exists>a. parseWaterInputRegex now txt prefs = log_now now a)"
  unfolding parseWaterInputRegex_def Let_def
  by (intro log_or_none_if bottles_cases) blast+

lemma success_log_now: "success (log_now now a)" "log_time (log_now now a) = Some (nowISTString now)"
  "amount_ml (log_now now a) = Some a" "\<not> success no_result"
  by (simp_all add: log_now_def no_result_def)

lemma regex_on_bottles:
  assumes "ds \<noteq> []" "list_all is_digit ds"
  shows "parseWaterInputRegex now (ds @ '' bottles'') prefs =
     (if 0 < digits_val ds \<and> digits_val ds \<le> 10
      then log_now now (Num (of_int (bottle_size_ml prefs) * of_nat (digits_val ds)))
      else no_result)"
proof -
  have low: "toLowerCase (ds @ '' bottles'') = ds @ '' bottles''"
    using assms by (simp add: toLowerCase_append toLowerCase_digits)
       (simp add: toLowerCase_def lower_char_def)
  have gc: "parse_glass_cup now (ds @ '' bottles'') = no_result"
    using assms by (simp add: parse_glass_cup_def glass_on_bottles cup_on_bottles)
  have "parse_bottles now (ds @ '' bottles'') prefs =
     (if 0 < digits_val ds \<and> digits_val ds \<le> 10
      then log_now now (Num (of_int (bottle_size_ml prefs) * of_nat (digits_val ds)))
      else no_result)"
    using assms
    by (simp add: parse_bottles_def half_on_bottles quarter_on_bottles numeric_on_bottles
        single_on_bottles gc parseInt_digits)
  then show ?thesis
    using assms
    by (simp add: parseWaterInputRegex_def low ml_on_bottles liter_on_bottles)
qed

text \<open>
  Claim C3. For the text \<^verbatim>\<open><n> bottles\<close>, \<open>n\<close> a natural number written in decimal: when
  \<open>n\<close> is in [1,10] the deterministic extractor returns \<open>bottleSize * n\<close> (and the resolver
  returns that result without a request); when \<open>n\<close> is 0 or above 10 the extractor reports
  no match and the resolver hands the message to the fallback.
\<close>

theorem counted_bottles:
  "(1 \<le> n \<and> n \<le> 10 \<longrightarrow>
      parseWaterInputRegex now (show_nat n @ '' bottles'') prefs
        = log_now now (Num (of_int (bottle_size_ml prefs) * of_nat n))
      \<and> parseWaterInput rt (show_nat n @ '' bottles'') prefs env
        = ([], Inr (log_now (now_ms rt) (Num (of_int (bottle_size_ml prefs) * of_nat n)))))
   \<and> (n = 0 \<or> 10 < n \<longrightarrow>
      parseWaterInputRegex now (show_nat n @ '' bottles'') prefs = no_result
      \<and> \<not> success (parseWaterInputRegex now (show_nat n @ '' bottles'') prefs)
      \<and> parseWaterInput rt (show_nat n @ '' bottles'') prefs env
        = parseWaterInputLLM rt (show_nat n @ '' bottles'') env)"
proof -
  have ds: "show_nat n \<noteq> []" "list_all is_digit (show_nat n)"
    using show_nat_digits[of n] by simp_all
  have r: "parseWaterInputRegex t (show_nat n @ '' bottles'') prefs =
     (if 0 < n \<and> n \<le> 10
      then log_now t (Num (of_int (bottle_size_ml prefs) * of_nat n)) else no_result)" for t
    using regex_on_bottles[OF ds, of t prefs] by (simp add: digits_val_show_nat)
  have tm: "\<not> rx_test True TIME_PHRASE_REGEX (show_nat n @ '' bottles'')"
    using time_on_bottles[OF ds(2)] by simp
  show ?thesis
    using r tm by (auto simp: parseWaterInput_def success_log_now)
qed

lemma show_nat_15: "show_nat 15 = ''15''" "show_nat 2 = ''2''" "show_nat 500 = ''500''"
  by code_simp+

theorem counted_bottles_witness:
  "parseWaterInputRegex 0 ''2 bottles'' prefs_default = log_now 0 (Num 1500)
   \<and> parseWaterInputRegex 0 ''15 bottles'' prefs_default = no_result"
  using counted_bottles[of 2 0 prefs_default] counted_bottles[of 15 0 prefs_default]
  by (simp add: show_nat_15 prefs_default_def)

text \<open>
  Claim C4. When the deterministic extractor succeeds on a text without a time-reference
  cue, the resolver returns that result, stamped with the current instant, and sends no
  request. In particular the text \<^verbatim>\<open><a>ml\<close> with \<open>a\<close> in (0, 10000] is logged with amount
  \<open>a\<close>.
\<close>

theorem deterministic_short_circuit:
  "(success (parseWaterInputRegex (now_ms rt) text prefs)
      \<and> \<not> rx_test True TIME_PHRASE_REGEX text \<longrightarrow>
        parseWaterInput rt text prefs env
          = ([], Inr (parseWaterInputRegex (now_ms rt) text prefs))
        \<and> log_time (parseWaterInputRegex (now_ms rt) text prefs)
          = Some (nowISTString (now_ms rt)))
   \<and> (0 < a \<and> a \<le> 10000 \<longrightarrow>
        parseWaterInput rt (show_nat a @ ''ml'') prefs env
          = ([], Inr (log_now (now_ms rt) (Num (of_nat a)))))"
proof (intro conjI impI)
  assume h: "success (parseWaterInputRegex (now_ms rt) text prefs)
      \<and> \<not> rx_test True TIME_PHRASE_REGEX text"
  then show "parseWaterInput rt text prefs env
          = ([], Inr (parseWaterInputRegex (now_ms rt) text prefs))"
    by (simp add: parseWaterInput_def)
  show "log_time (parseWaterInputRegex (now_ms rt) text prefs) = Some (nowISTString (now_ms rt))"
    using h regex_result_cases[of "now_ms rt" "text" prefs] by (auto simp: success_log_now)
next
  assume a: "0 < a \<and> a \<le> 10000"
  have ds: "show_nat a \<noteq> []" "list_all is_digit (show_nat a)"
    using show_nat_digits[of a] by simp_all
  have low: "toLowerCase (show_nat a @ ''ml'') = show_nat a @ ''ml''"
    using ds by (simp add: toLowerCase_append toLowerCase_digits)
       (simp add: toLowerCase_def lower_char_def)
  have "parseWaterInputRegex (now_ms rt) (show_nat a @ ''ml'') prefs
          = log_now (now_ms rt) (Num (of_nat a))"
    using a ds
    by (simp add: parseWaterInputRegex_def low ml_on_ml parseInt_digits digits_val_show_nat)
  then show "parseWaterInput rt (show_nat a @ ''ml'') prefs env
          = ([], Inr (log_now (now_ms rt) (Num (of_nat a))))"
    using time_on_ml[OF ds(2)] by (simp add: parseWaterInput_def success_log_now)
qed

theorem deterministic_short_circuit_witness:
  "parseWaterInput (rt_of (Rejects NetworkError)) ''500ml'' prefs_default env_key
     = ([], Inr (log_now 0 (Num 500)))"
  using deterministic_short_circuit[of "rt_of (Rejects NetworkError)" "''500ml''" prefs_default
      env_key 500]
  by (simp add: show_nat_15 rt_of_def)

section \<open>The retroactive window\<close>









section \<open>Texts that show a gap between the code and the specification\<close>

lemma digits_10: "digits_val ''10'' = 10" "digits_val ''500'' = 500"
  by (simp_all add: digits_val_def digit_val_def)

text \<open>
  Claim C2 fails on the counted-bottle branch: with a bottle of 3000 ml, \<^verbatim>\<open>10 bottles\<close> is
  logged as 30000 ml, above the ceiling of 10000 that the ml and litre branches enforce.
\<close>

theorem counted_bottles_exceed_cap:
  "parseWaterInputRegex 0 ''10 bottles'' prefs_large = log_now 0 (Num 30000)
   \<and> success (log_now 0 (Num 30000))
   \<and> amount_ml (log_now 0 (Num 30000)) = Some (Num 30000)
   \<and> \<not> num_le (Num 30000) (Num 10000)"
  using regex_on_bottles[of "''10''" 0 prefs_large]
  by (simp add: digits_10 is_digit_lit success_log_now prefs_large_def)

lemma yesterday_rejects_digit:
  "is_digit d \<Longrightarrow> rmatch True YESTERDAY_REGEX (p, d # s, g) = []"
  by (simp add: YESTERDAY_REGEX_def ev_sym is_digit_lit)

lemma yesterday_in_text: "rx_test True YESTERDAY_REGEX ''500ml yesterday''"
proof -
  have "search_from True YESTERDAY_REGEX None (''500'' @ ''ml yesterday'')
          = search_from True YESTERDAY_REGEX (prev_after None ''500'') ''ml yesterday''"
    by (rule search_skip) (auto simp: yesterday_rejects_digit is_digit_lit neq_Nil_conv)
  moreover have "search_from True YESTERDAY_REGEX (Some CHR ''0'') ''ml yesterday'' \<noteq> None"
    by (simp add: YESTERDAY_REGEX_def ev_lit set_cap_def)
  ultimately show ?thesis
    by (simp add: rx_test_def rx_match_def prev_after_def)
qed

lemma time_not_in_text: "\<not> rx_test True TIME_PHRASE_REGEX ''500ml yesterday''"
proof -
  have "search_from True TIME_PHRASE_REGEX q ''ml yesterday'' = None" for q
    by (simp add: TIME_PHRASE_REGEX_def ev_lit)
  then show ?thesis
    using letter_no_match[where r=TIME_PHRASE_REGEX and ic=True and tail="''ml yesterday''"
        and ds="''500''" and p=None, OF time_rejects_digit]
    by (simp add: rx_test_def rx_match_def is_digit_lit)
qed

lemma ml_in_text:
  "rx_match True mlRe ''500ml yesterday'' = Some \<lparr>whole = ''500ml'', group1 = Some ''500''\<rparr>"
proof -
  let ?t = "Seq spaces0 (Seq (lits ''ml'') WordB)"
  have rej: "rmatch True ?t (p, d # s, g) = []" if "is_digit d" for p d s g
    using that by (simp add: star_space_cons ev_sym is_digit_lit)
  have run: "rmatch True (Seq (Cap digits1) ?t) (None, ''500'' @ ''ml yesterday'', None)
          = rmatch True ?t (Some (last ''500''), ''ml yesterday'', Some ''500'')"
    by (rule numbered_match[OF rej]) (simp_all add: is_digit_lit)
  have hit: "rmatch True ?t (Some (last ''500''), ''ml yesterday'', Some ''500'')
          = [(Some CHR ''l'', '' yesterday'', Some ''500'')]"
    by (simp add: ev_lit)
  show ?thesis
    using run_first_match[OF run hit] by (simp add: rx_match_def mlRe_def)
qed

text \<open>
  Claim C1 fails on the deterministic path: \<^verbatim>\<open>500ml yesterday\<close> contains the word
  \<^verbatim>\<open>yesterday\<close>, which is no time-reference cue, so the resolver returns the extractor's
  result, a log of 500 ml stamped now, and the fallback with its guard is not reached.
\<close>

theorem yesterday_logged_by_regex:
  "rx_test True YESTERDAY_REGEX ''500ml yesterday''
   \<and> parseWaterInput (rt_of (Rejects NetworkError)) ''500ml yesterday'' prefs_default env_key
       = ([], Inr (log_now 0 (Num 500)))
   \<and> success (log_now 0 (Num 500))
   \<and> amount_ml (log_now 0 (Num 500)) = Some (Num 500)"
proof -
  have low: "toLowerCase ''500ml yesterday'' = ''500ml yesterday''"
    by (simp add: toLowerCase_def lower_char_def)
  have "parseWaterInputRegex 0 ''500ml yesterday'' prefs_default = log_now 0 (Num 500)"
    by (simp add: parseWaterInputRegex_def low ml_in_text parseInt_digits is_digit_lit digits_10)
  then show ?thesis
    using yesterday_in_text time_not_in_text
    by (simp add: parseWaterInput_def success_log_now rt_of_def)
qed




text \<open>On the fallback path the guard holds: a text with \<^verbatim>\<open>yesterday\<close> or \<^verbatim>\<open>last night\<close>
  never becomes a log, whatever the fallback answers.\<close>

lemma resolve_llm_yesterday:
  assumes "rx_test True YESTERDAY_REGEX txt"
  shows "intent (resolve_llm now txt r) \<noteq> Some Log"
  using assms
  by (cases "intent_x r")
     (simp_all add: resolve_llm_def clarify_def no_result_def split: option.splits)

end
